theory Spec2Isabelle
  imports Complex_Main
begin

section \<open>ballTracer: colour tracking pipeline of main.py\<close>

text \<open>
  The program reads camera frames, builds a colour mask, extracts contours, and annotates
  and logs the contours that pass an area and a radius filter. Every image operation is a
  call into OpenCV (\<open>cv2\<close>) or \<open>imutils\<close>; those libraries are not part of the
  repository, so the model takes them as a record of functions and is proved for every
  such record.

  Python integers are \<open>int\<close>. A Python float is an IEEE 754 double. The numbers that the
  library hands over (areas, centres, radii, moments) are finite doubles and are modelled
  by their values, as \<open>real\<close>. A division is computed by the program itself: its result
  is the exact quotient rounded to the nearest double, ties to even, or an infinity when
  the quotient is too large, and is modelled as such.
\<close>

subsection \<open>Python values\<close>

datatype py_error = KeyError string | ZeroDivisionError | OverflowError

text \<open>The result of a float operation: a finite double, given by its value, or an infinity.\<close>

datatype py_float = Finite real | Infinity | Neg_infinity

text \<open>Rounding to the nearest integer, a tie going to the even one.\<close>

definition round_half_even :: "real \<Rightarrow> int" where
  "round_half_even z =
     (let f = \<lfloor>z\<rfloor> in
      if z - of_int f < 1 / 2 then f
      else if 1 / 2 < z - of_int f then f + 1
      else if even f then f else f + 1)"

text \<open>
  The binary exponent of a double with magnitude \<open>x\<close>: the largest \<open>e\<close> from -1021 to
  1023 with \<open>2 ^ e \<le> x\<close>, found by searching downwards from 1023, and -1022 when there is
  none (the subnormal numbers share the exponent of the smallest normal ones).
\<close>

primrec binade :: "real \<Rightarrow> nat \<Rightarrow> int" where
  "binade x 0 = - 1022"
| "binade x (Suc n) = (if 2 powi (int n - 1021) \<le> x then int n - 1021 else binade x n)"

definition exponent :: "real \<Rightarrow> int" where
  "exponent x = binade \<bar>x\<bar> 2045"

text \<open>
  A double has 53 significant bits, so around \<open>x\<close> the doubles are the multiples of
  \<open>2 ^ (exponent x - 52)\<close>; \<open>round_to_grid\<close> takes \<open>x\<close> to the nearest of them, and
  \<open>round_double\<close> turns a result that is beyond the largest double into an infinity.
\<close>

definition round_to_grid :: "real \<Rightarrow> real" where
  "round_to_grid x =
     of_int (round_half_even (x / 2 powi (exponent x - 52))) * 2 powi (exponent x - 52)"

definition round_double :: "real \<Rightarrow> py_float" where
  "round_double x =
     (let r = round_to_grid x in
      if 2 ^ 1024 \<le> r then Infinity
      else if r \<le> - (2 ^ 1024) then Neg_infinity
      else Finite r)"

text \<open>
  \<open>a / b\<close> on floats raises ZeroDivisionError when \<open>b\<close> is zero, and is the rounded
  quotient otherwise.
\<close>

definition py_truediv :: "real \<Rightarrow> real \<Rightarrow> py_error + py_float" where
  "py_truediv a b = (if b = 0 then Inl ZeroDivisionError else Inr (round_double (a / b)))"

text \<open>
  \<open>a / b\<close> on integers is the correctly rounded quotient as well, and raises
  OverflowError where a float division would give an infinity.
\<close>

definition int_truediv :: "int \<Rightarrow> int \<Rightarrow> py_error + real" where
  "int_truediv a b =
     (if b = 0 then Inl ZeroDivisionError
      else case round_double (real_of_int a / real_of_int b) of
             Finite r \<Rightarrow> Inr r
           | Infinity \<Rightarrow> Inl OverflowError
           | Neg_infinity \<Rightarrow> Inl OverflowError)"

text \<open>\<open>d[k]\<close> on a dict raises KeyError, carrying the key, when \<open>k\<close> is absent.\<close>

definition dict_get :: "(string \<rightharpoonup> 'v) \<Rightarrow> string \<Rightarrow> py_error + 'v" where
  "dict_get d k = (case d k of None \<Rightarrow> Inl (KeyError k) | Some v \<Rightarrow> Inr v)"

text \<open>
  \<open>int(x)\<close> on a float drops the fractional part (truncation toward zero), and raises
  OverflowError on an infinity.
\<close>

definition py_int :: "real \<Rightarrow> int" where
  "py_int x = (if 0 \<le> x then \<lfloor>x\<rfloor> else \<lceil>x\<rceil>)"

definition int_of_float :: "py_float \<Rightarrow> py_error + int" where
  "int_of_float x =
     (case x of
        Finite r \<Rightarrow> Inr (py_int r)
      | Infinity \<Rightarrow> Inl OverflowError
      | Neg_infinity \<Rightarrow> Inl OverflowError)"

text \<open>\<open>str\<close> of an integer, and of a pair of integers (the \<open>repr\<close> of a tuple).\<close>

fun str_nat :: "nat \<Rightarrow> string" where
  "str_nat n =
     (if n < 10 then [''0123456789'' ! n]
      else str_nat (n div 10) @ [''0123456789'' ! (n mod 10)])"

declare str_nat.simps [simp del]

definition str_int :: "int \<Rightarrow> string" where
  "str_int i = (if i < 0 then ''-'' @ str_nat (nat (- i)) else str_nat (nat i))"

definition str_pair :: "int \<times> int \<Rightarrow> string" where
  "str_pair p = ''('' @ str_int (fst p) @ '', '' @ str_int (snd p) @ '')''"

subsection \<open>The OpenCV interface\<close>

record moments =
  m00 :: real
  m10 :: real
  m01 :: real

datatype color_conversion = COLOR_BGR2HSV | COLOR_BGR2GRAY | COLOR_BGR2RGB

datatype retrieval_mode = RETR_EXTERNAL | RETR_LIST | RETR_CCOMP | RETR_TREE

datatype approximation = CHAIN_APPROX_NONE | CHAIN_APPROX_SIMPLE

type_synonym hsv = "int \<times> int \<times> int"

text \<open>
  \<open>'img\<close> is an image (a numpy array), \<open>'c\<close> a contour, \<open>'r\<close> the tuple that
  \<open>findContours\<close> returns, \<open>'k\<close> a structuring element.
\<close>

record ('img, 'c, 'r, 'k) cv2 =
  GaussianBlur :: "'img \<Rightarrow> int \<times> int \<Rightarrow> real \<Rightarrow> 'img"
  cvtColor :: "'img \<Rightarrow> color_conversion \<Rightarrow> 'img"
  inRange :: "'img \<Rightarrow> hsv \<Rightarrow> hsv \<Rightarrow> 'img"
  erode :: "'img \<Rightarrow> 'k option \<Rightarrow> int \<Rightarrow> 'img"
  dilate :: "'img \<Rightarrow> 'k option \<Rightarrow> int \<Rightarrow> 'img"
  findContours :: "'img \<Rightarrow> retrieval_mode \<Rightarrow> approximation \<Rightarrow> 'r"
  grab_contours :: "'r \<Rightarrow> 'c list"
  contourArea :: "'c \<Rightarrow> real"
  minEnclosingCircle :: "'c \<Rightarrow> (real \<times> real) \<times> real"
  moments_of :: "'c \<Rightarrow> moments"
  circle :: "'img \<Rightarrow> int \<times> int \<Rightarrow> int \<Rightarrow> int \<times> int \<times> int \<Rightarrow> int \<Rightarrow> 'img"

subsection \<open>The state of the program\<close>

text \<open>
  The frame is a numpy array that \<open>cv2.circle\<close> changes in place, and the logger is
  global: both are the state that \<open>draw_contours\<close> acts on. Of the logger the state
  keeps the records handed to it (level and message) and the lines that its handlers have
  written to the console and to the file \<open>app.log\<close>. An exception leaves the state as it
  is at the raise.
\<close>

datatype log_level = DEBUG | INFO | WARNING | ERROR | CRITICAL

type_synonym log_record = "log_level \<times> string"

record 'img world =
  frame_buffer :: 'img
  logged :: "log_record list"
  console :: "string list"
  app_log :: "string list"

subsection \<open>Logging (lines 7 to 21)\<close>

text \<open>
  \<open>logging.basicConfig\<close> sets the level of the root logger to INFO and gives it a stream
  handler of its own, which has no level (0); the file handler \<open>fh\<close> and the stream
  handler \<open>ch\<close>, both of level INFO, are added after it. A stream handler writes to the
  console. All three format a record as name, level and message, the name of the root
  logger being \<open>root\<close>. A record reaches the handlers when its level is at least that of
  the logger, and a handler writes it when its level is at least that of the handler.
\<close>

fun level_number :: "log_level \<Rightarrow> nat" where
  "level_number DEBUG = 10"
| "level_number INFO = 20"
| "level_number WARNING = 30"
| "level_number ERROR = 40"
| "level_number CRITICAL = 50"

fun level_name :: "log_level \<Rightarrow> string" where
  "level_name DEBUG = ''DEBUG''"
| "level_name INFO = ''INFO''"
| "level_name WARNING = ''WARNING''"
| "level_name ERROR = ''ERROR''"
| "level_name CRITICAL = ''CRITICAL''"

datatype handler = StreamHandler nat | FileHandler nat

definition root_handlers :: "handler list" where
  "root_handlers =
     [StreamHandler 0, FileHandler (level_number INFO), StreamHandler (level_number INFO)]"

definition root_level :: nat where
  "root_level = level_number INFO"

definition format_record :: "log_record \<Rightarrow> string" where
  "format_record r = ''root - '' @ level_name (fst r) @ '' - '' @ snd r"

fun handle :: "log_record \<Rightarrow> 'img world \<Rightarrow> handler \<Rightarrow> 'img world" where
  "handle r w (StreamHandler l) =
     (if l \<le> level_number (fst r) then w\<lparr>console := console w @ [format_record r]\<rparr> else w)"
| "handle r w (FileHandler l) =
     (if l \<le> level_number (fst r) then w\<lparr>app_log := app_log w @ [format_record r]\<rparr> else w)"

definition logger_info :: "string \<Rightarrow> 'img world \<Rightarrow> 'img world" where
  "logger_info msg w =
     (if root_level \<le> level_number INFO
      then foldl (handle (INFO, msg)) (w\<lparr>logged := logged w @ [(INFO, msg)]\<rparr>) root_handlers
      else w)"

subsection \<open>get_min_contour_area\<close>

definition get_min_contour_area :: "int \<Rightarrow> int \<Rightarrow> py_error + real" where
  "get_min_contour_area frame_width frame_height =
     int_truediv (frame_width * frame_height) 1000"

subsection \<open>process_frame\<close>

text \<open>
  The colour table is a dict from colour name to a dict with the keys \<open>lower\<close> and
  \<open>upper\<close>.
\<close>

type_synonym bounds_table = "string \<rightharpoonup> (string \<rightharpoonup> hsv)"

text \<open>
  No call changes its argument: each returns a new array, and \<open>mask.copy()\<close> is the
  same image again. The arguments of \<open>inRange\<close> are evaluated left to right, the
  colour being looked up once for each bound. \<open>min_contour_area\<close> is a parameter of
  the source function and is kept.
\<close>

definition process_frame ::
  "('img, 'c, 'r, 'k) cv2 \<Rightarrow> 'img \<Rightarrow> bounds_table \<Rightarrow> string \<Rightarrow> real
     \<Rightarrow> py_error + ('img \<times> 'c list)"
where
  "process_frame cv frame color_bounds chosen_color min_contour_area =
     (let blurred = GaussianBlur cv frame (11, 11) 0;
          hsv = cvtColor cv blurred COLOR_BGR2HSV
      in case dict_get color_bounds chosen_color of
           Inl e \<Rightarrow> Inl e
         | Inr entry_lo \<Rightarrow>
        (case dict_get entry_lo ''lower'' of
           Inl e \<Rightarrow> Inl e
         | Inr lower \<Rightarrow>
        (case dict_get color_bounds chosen_color of
           Inl e \<Rightarrow> Inl e
         | Inr entry_up \<Rightarrow>
        (case dict_get entry_up ''upper'' of
           Inl e \<Rightarrow> Inl e
         | Inr upper \<Rightarrow>
            (let mask = inRange cv hsv lower upper;
                 mask = erode cv mask None 2;
                 mask = dilate cv mask None 2;
                 cnts = findContours cv mask RETR_EXTERNAL CHAIN_APPROX_SIMPLE;
                 cnts = grab_contours cv cnts
             in Inr (frame, cnts))))))"

subsection \<open>The colour table\<close>

text \<open>The global \<open>color_bounds\<close> of the source (lines 24 to 32).\<close>

definition bounds :: "hsv \<Rightarrow> hsv \<Rightarrow> (string \<rightharpoonup> hsv)" where
  "bounds lo up = [''lower'' \<mapsto> lo, ''upper'' \<mapsto> up]"

definition color_bounds :: bounds_table where
  "color_bounds =
     [''blue'' \<mapsto> bounds (100, 50, 50) (130, 255, 255),
      ''red'' \<mapsto> bounds (0, 100, 100) (10, 255, 255),
      ''green'' \<mapsto> bounds (40, 50, 50) (80, 255, 255),
      ''yellow'' \<mapsto> bounds (20, 100, 100) (30, 255, 255),
      ''orange'' \<mapsto> bounds (5, 100, 100) (15, 255, 255),
      ''black'' \<mapsto> bounds (0, 0, 0) (180, 255, 30),
      ''white'' \<mapsto> bounds (0, 0, 200) (180, 30, 255)]"

subsection \<open>draw_contours\<close>

text \<open>
  The body of the \<open>for\<close> loop, for one contour. The arguments of the first
  \<open>cv2.circle\<close> are conversions of numbers from the library and cannot fail; the
  centre is computed left to right, each coordinate by a division and a conversion, either
  of which can raise, the outline circle being drawn by then.
\<close>

definition draw_contour ::
  "('img, 'c, 'r, 'k) cv2 \<Rightarrow> real \<Rightarrow> 'c \<Rightarrow> 'img world \<Rightarrow> (py_error + unit) \<times> 'img world"
where
  "draw_contour cv min_contour_area c w =
     (let area = contourArea cv c in
      if area > min_contour_area then
        (case minEnclosingCircle cv c of ((x, y), radius) \<Rightarrow>
          if radius > 10 then
            (let w1 = w\<lparr>frame_buffer :=
                         circle cv (frame_buffer w) (py_int x, py_int y) (py_int radius)
                           (0, 255, 255) 5\<rparr>;
                 M = moments_of cv c
             in case py_truediv (m10 M) (m00 M) of
                  Inl e \<Rightarrow> (Inl e, w1)
                | Inr qx \<Rightarrow>
               (case int_of_float qx of
                  Inl e \<Rightarrow> (Inl e, w1)
                | Inr cx \<Rightarrow>
               (case py_truediv (m01 M) (m00 M) of
                  Inl e \<Rightarrow> (Inl e, w1)
                | Inr qy \<Rightarrow>
               (case int_of_float qy of
                  Inl e \<Rightarrow> (Inl e, w1)
                | Inr cy \<Rightarrow>
                   (let center = (cx, cy);
                        w2 = w1\<lparr>frame_buffer :=
                                circle cv (frame_buffer w1) center 5 (0, 0, 255) (- 1)\<rparr>;
                        w3 = logger_info (''Center coordinates: '' @ str_pair center) w2
                    in (Inr (), w3))))))
          else (Inr (), w))
      else (Inr (), w))"

fun draw_contours ::
  "('img, 'c, 'r, 'k) cv2 \<Rightarrow> 'img world \<Rightarrow> 'c list \<Rightarrow> real \<Rightarrow> (py_error + 'img) \<times> 'img world"
where
  "draw_contours cv w [] min_contour_area = (Inr (frame_buffer w), w)"
| "draw_contours cv w (c # cnts) min_contour_area =
     (case draw_contour cv min_contour_area c w of
        (Inl e, w') \<Rightarrow> (Inl e, w')
      | (Inr _, w') \<Rightarrow> draw_contours cv w' cnts min_contour_area)"

subsection \<open>The contour filter in the words of the specification\<close>

text \<open>
  A contour passes the filter when its area is above the minimum and the radius of its
  enclosing circle is above 10. A contour that passes gets an outline circle at the centre
  and with the radius of its enclosing circle.
\<close>

definition passes_filter :: "('img, 'c, 'r, 'k) cv2 \<Rightarrow> real \<Rightarrow> 'c \<Rightarrow> bool" where
  "passes_filter cv min_area c \<longleftrightarrow>
     contourArea cv c > min_area \<and> snd (minEnclosingCircle cv c) > 10"

definition outline_circle :: "('img, 'c, 'r, 'k) cv2 \<Rightarrow> 'c \<Rightarrow> 'img \<Rightarrow> 'img" where
  "outline_circle cv c img =
     circle cv img
       (py_int (fst (fst (minEnclosingCircle cv c))), py_int (snd (fst (minEnclosingCircle cv c))))
       (py_int (snd (minEnclosingCircle cv c))) (0, 255, 255) 5"

subsection \<open>The pipeline in the words of the specification\<close>

text \<open>
  The mask builder as the specification lists it: a sequence of stages, run in order. A
  blur stage leaves the deviation to be derived from the kernel size (\<open>0\<close>), and the
  morphological stages use the default structuring element (\<open>None\<close>).
\<close>

datatype stage =
    Gaussian_blur "int \<times> int"
  | BGR_to_HSV
  | Range_threshold hsv hsv
  | Erosion int
  | Dilation int

fun run_stage :: "('img, 'c, 'r, 'k) cv2 \<Rightarrow> 'img \<Rightarrow> stage \<Rightarrow> 'img" where
  "run_stage cv img (Gaussian_blur ksize) = GaussianBlur cv img ksize 0"
| "run_stage cv img BGR_to_HSV = cvtColor cv img COLOR_BGR2HSV"
| "run_stage cv img (Range_threshold lo up) = inRange cv img lo up"
| "run_stage cv img (Erosion n) = erode cv img None n"
| "run_stage cv img (Dilation n) = dilate cv img None n"

definition mask_builder :: "('img, 'c, 'r, 'k) cv2 \<Rightarrow> 'img \<Rightarrow> hsv \<Rightarrow> hsv \<Rightarrow> 'img" where
  "mask_builder cv frame lo up =
     foldl (run_stage cv) frame
       [Gaussian_blur (11, 11), BGR_to_HSV, Range_threshold lo up, Erosion 2, Dilation 2]"

definition external_contours :: "('img, 'c, 'r, 'k) cv2 \<Rightarrow> 'img \<Rightarrow> 'c list" where
  "external_contours cv binary_mask =
     grab_contours cv (findContours cv binary_mask RETR_EXTERNAL CHAIN_APPROX_SIMPLE)"

subsection \<open>A test double of the library\<close>

text \<open>
  For running the model on concrete inputs: an image is the list of the operations applied
  to the camera frame (\<open>[]\<close>) so far, a contour is given by the measurements the library
  reports for it, and the scene fixes which contours a mask has: the outermost ones, and
  the ones nested inside them, which only the modes other than \<open>RETR_EXTERNAL\<close> report.
\<close>

datatype image_op =
    Blurred "int \<times> int" real
  | Converted color_conversion
  | Thresholded hsv hsv
  | Eroded int
  | Dilated int
  | Circled "int \<times> int" int "int \<times> int \<times> int" int

record contour_data =
  c_area :: real
  c_circle :: "(real \<times> real) \<times> real"
  c_moments :: moments

definition test_cv2 ::
  "contour_data list \<Rightarrow> contour_data list
     \<Rightarrow> (image_op list, contour_data, contour_data list, unit) cv2"
where
  "test_cv2 outer nested =
     \<lparr>GaussianBlur = (\<lambda>img ksize sigma. img @ [Blurred ksize sigma]),
      cvtColor = (\<lambda>img code. img @ [Converted code]),
      inRange = (\<lambda>img lo up. img @ [Thresholded lo up]),
      erode = (\<lambda>img kernel n. img @ [Eroded n]),
      dilate = (\<lambda>img kernel n. img @ [Dilated n]),
      findContours = (\<lambda>mask mode approx. if mode = RETR_EXTERNAL then outer else outer @ nested),
      grab_contours = (\<lambda>r. r),
      contourArea = c_area,
      minEnclosingCircle = c_circle,
      moments_of = c_moments,
      circle = (\<lambda>img center radius color thickness.
                  img @ [Circled center radius color thickness])\<rparr>"

text \<open>
  Contours for the tests: a disk of radius 50 around (320, 240), as in the end-to-end
  scenario of the specification; a region whose centroid (319.9, 240.7) and enclosing circle
  are not at integer positions; a disk of radius exactly 10, larger than the area threshold
  of a 640 by 480 frame; a speck of two by two pixels; and a contour that encloses no area
  (its points lie on the segment from (0, 0) to (30, 0)), so that its area and its moments
  are zero while its enclosing circle has radius 15.
\<close>

definition disk_contour :: contour_data where
  "disk_contour =
     \<lparr>c_area = 7850, c_circle = ((320, 240), 50),
      c_moments = \<lparr>m00 = 7850, m10 = 2512000, m01 = 1884000\<rparr>\<rparr>"

definition offcentre_contour :: contour_data where
  "offcentre_contour =
     \<lparr>c_area = 1000, c_circle = ((2559 / 8, 963 / 4), 51 / 2),
      c_moments = \<lparr>m00 = 1000, m10 = 319900, m01 = 240700\<rparr>\<rparr>"

definition small_disk_contour :: contour_data where
  "small_disk_contour =
     \<lparr>c_area = 310, c_circle = ((100, 100), 10),
      c_moments = \<lparr>m00 = 310, m10 = 31000, m01 = 31000\<rparr>\<rparr>"

definition speck_contour :: contour_data where
  "speck_contour =
     \<lparr>c_area = 4, c_circle = ((11, 11), 3 / 2),
      c_moments = \<lparr>m00 = 4, m10 = 44, m01 = 44\<rparr>\<rparr>"

definition segment_contour :: contour_data where
  "segment_contour =
     \<lparr>c_area = 0, c_circle = ((15, 0), 15),
      c_moments = \<lparr>m00 = 0, m10 = 0, m01 = 0\<rparr>\<rparr>"

definition camera_world :: "image_op list world" where
  "camera_world = \<lparr>frame_buffer = [], logged = [], console = [], app_log = []\<rparr>"

text \<open>
  The minimum area that \<open>main\<close> computes for its 640 by 480 frames: the double nearest to
  307.2.
\<close>

definition frame_min_area :: real where
  "frame_min_area = 5404319552844595 / 17592186044416"

section \<open>Properties\<close>

subsection \<open>Rounding to a double\<close>

lemma binade_range: "- 1022 \<le> binade x n \<and> binade x n \<le> int n - 1022"
  by (induction n) auto

lemma binade_lower: "binade x n \<noteq> - 1022 \<Longrightarrow> 2 powi (binade x n) \<le> x"
  by (induction n) (auto split: if_splits)

lemma binade_upper: "binade x n < int n - 1022 \<Longrightarrow> x < 2 powi (binade x n + 1)"
proof (induction n)
  case 0
  then show ?case by simp
next
  case (Suc n)
  show ?case
  proof (cases "2 powi (int n - 1021) \<le> x")
    case True
    with Suc.prems show ?thesis by simp
  next
    case False
    then have b: "binade x (Suc n) = binade x n" and lt: "x < 2 powi (int n - 1021)" by simp_all
    show ?thesis
    proof (cases "binade x n < int n - 1022")
      case True
      with Suc.IH b show ?thesis by simp
    next
      case False
      with binade_range [of x n] have eq: "binade x n + 1 = int n - 1021" by simp
      have "x < 2 powi (binade x n + 1)" using lt by (simp only: eq)
      then show ?thesis by (simp only: b)
    qed
  qed
qed

lemma binade_eqI:
  assumes "k = - 1022 \<or> 2 powi k \<le> x" and "k = int n - 1022 \<or> x < 2 powi (k + 1)"
    and "- 1022 \<le> k" and "k \<le> int n - 1022"
  shows "binade x n = k"
proof (rule ccontr)
  assume ne: "binade x n \<noteq> k"
  let ?j = "binade x n"
  show False
  proof (cases "?j < k")
    case True
    with assms(4) have "?j < int n - 1022" by simp
    then have "x < 2 powi (?j + 1)" by (rule binade_upper)
    also have "(2::real) powi (?j + 1) \<le> 2 powi k"
      using True by (intro power_int_increasing) auto
    finally have "x < 2 powi k" .
    moreover have "k \<noteq> - 1022" using True binade_range [of x n] by simp
    ultimately show False using assms(1) by simp
  next
    case False
    with ne have gt: "k < ?j" by simp
    then have "?j \<noteq> - 1022" using assms(3) by simp
    then have "2 powi ?j \<le> x" by (rule binade_lower)
    moreover have "(2::real) powi (k + 1) \<le> 2 powi ?j"
      using gt by (intro power_int_increasing) auto
    moreover have "k \<noteq> int n - 1022" using gt binade_range [of x n] by simp
    ultimately show False using assms(2) by simp
  qed
qed

lemma round_half_even_of_int [simp]: "round_half_even (of_int n) = n"
  by (simp add: round_half_even_def)

lemma round_half_even_zero [simp]: "round_half_even 0 = 0"
  using round_half_even_of_int [of 0] by simp

lemma round_half_even_bounds:
  "\<lfloor>z\<rfloor> \<le> round_half_even z \<and> round_half_even z \<le> \<lfloor>z\<rfloor> + 1"
  by (simp add: round_half_even_def Let_def)

lemma round_half_even_error: "\<bar>of_int (round_half_even z) - z\<bar> \<le> 1 / 2"
  unfolding round_half_even_def Let_def
  by (auto simp: abs_if) linarith+

lemma round_half_even_mono:
  assumes "z \<le> z'"
  shows "round_half_even z \<le> round_half_even z'"
proof (cases "\<lfloor>z\<rfloor> = \<lfloor>z'\<rfloor>")
  case True
  with assms show ?thesis
    by (auto simp: round_half_even_def Let_def)
next
  case False
  with assms have "\<lfloor>z\<rfloor> + 1 \<le> \<lfloor>z'\<rfloor>" using floor_mono [OF assms] by simp
  with round_half_even_bounds [of z] round_half_even_bounds [of z'] show ?thesis by linarith
qed


lemma exponent_range: "- 1022 \<le> exponent x \<and> exponent x \<le> 1023"
  using binade_range [of "\<bar>x\<bar>" 2045] by (simp add: exponent_def)

lemma exponent_lower: "2 powi (- 1022) \<le> \<bar>x\<bar> \<Longrightarrow> 2 powi (exponent x) \<le> \<bar>x\<bar>"
  using binade_lower [of "\<bar>x\<bar>" 2045] by (cases "exponent x = - 1022") (auto simp: exponent_def)

lemma exponent_upper: "exponent x < 1023 \<Longrightarrow> \<bar>x\<bar> < 2 powi (exponent x + 1)"
  using binade_upper [of "\<bar>x\<bar>" 2045] by (simp add: exponent_def)

lemma exponent_eqI:
  assumes "2 powi k \<le> \<bar>x\<bar>" and "\<bar>x\<bar> < 2 powi (k + 1)" and "- 1022 \<le> k" and "k \<le> 1023"
  shows "exponent x = k"
  unfolding exponent_def using assms by (intro binade_eqI) auto

lemma exponent_mono:
  assumes "\<bar>x\<bar> \<le> \<bar>y\<bar>"
  shows "exponent x \<le> exponent y"
proof (rule ccontr)
  assume "\<not> exponent x \<le> exponent y"
  then have gt: "exponent y < exponent x" by simp
  with exponent_range [of y] have "exponent x \<noteq> - 1022" by simp
  then have "2 powi (exponent x) \<le> \<bar>x\<bar>"
    using binade_lower [of "\<bar>x\<bar>" 2045] by (simp add: exponent_def)
  moreover from gt exponent_range [of x] have "exponent y < 1023" by simp
  then have "\<bar>y\<bar> < 2 powi (exponent y + 1)" by (rule exponent_upper)
  moreover have "(2::real) powi (exponent y + 1) \<le> 2 powi (exponent x)"
    using gt by (intro power_int_increasing) auto
  ultimately show False using assms by linarith
qed

lemma pow2_split: "(2::real) powi (k - 52) * 2 ^ 52 = 2 powi k"
proof -
  have "(2::real) powi k = 2 powi ((k - 52) + 52)"
    by (rule arg_cong [where f = "\<lambda>i. 2 powi i"]) simp
  also have "\<dots> = 2 powi (k - 52) * 2 powi 52"
    by (rule power_int_add) simp
  also have "(2::real) powi 52 = 2 ^ 52"
    by (rule power_int_numeral)
  finally show ?thesis by (rule sym)
qed

lemma pow2_split53: "(2::real) powi (k - 52) * 2 ^ 53 = 2 powi (k + 1)"
proof -
  have "(2::real) powi (k + 1) = 2 powi ((k - 52) + 53)"
    by (rule arg_cong [where f = "\<lambda>i. 2 powi i"]) simp
  also have "\<dots> = 2 powi (k - 52) * 2 powi 53"
    by (rule power_int_add) simp
  also have "(2::real) powi 53 = 2 ^ 53"
    by (rule power_int_numeral)
  finally show ?thesis by (rule sym)
qed

lemma round_to_grid_upper:
  assumes "0 \<le> x" and "x \<le> 2 powi (exponent x + 1)"
  shows "round_to_grid x \<le> 2 powi (exponent x + 1)"
proof -
  let ?g = "(2::real) powi (exponent x - 52)"
  have g: "0 < ?g" by simp
  have "x / ?g \<le> 2 ^ 53"
    using assms(2) g pow2_split53 [of "exponent x"] by (simp add: field_simps)
  then have "x / ?g \<le> of_int (2 ^ 53)" by simp
  then have "round_half_even (x / ?g) \<le> round_half_even (of_int (2 ^ 53))"
    by (rule round_half_even_mono)
  then have "round_half_even (x / ?g) \<le> 2 ^ 53" by (simp only: round_half_even_of_int)
  then have "real_of_int (round_half_even (x / ?g)) \<le> 2 ^ 53"
    by (metis of_int_le_iff of_int_numeral of_int_power)
  then have "real_of_int (round_half_even (x / ?g)) * ?g \<le> 2 ^ 53 * ?g"
    using g by (intro mult_right_mono) auto
  also have "2 ^ 53 * ?g = 2 powi (exponent x + 1)"
    using pow2_split53 [of "exponent x"] by (simp only: mult.commute)
  finally show ?thesis unfolding round_to_grid_def .
qed

lemma round_to_grid_lower:
  assumes "2 powi (exponent x) \<le> x"
  shows "2 powi (exponent x) \<le> round_to_grid x"
proof -
  let ?g = "(2::real) powi (exponent x - 52)"
  have g: "0 < ?g" by simp
  have "2 ^ 52 \<le> x / ?g"
    using assms g pow2_split [of "exponent x"] by (simp add: field_simps)
  then have "of_int (2 ^ 52) \<le> x / ?g" by simp
  then have "round_half_even (of_int (2 ^ 52)) \<le> round_half_even (x / ?g)"
    by (rule round_half_even_mono)
  then have "2 ^ 52 \<le> round_half_even (x / ?g)" by (simp only: round_half_even_of_int)
  then have "2 ^ 52 \<le> real_of_int (round_half_even (x / ?g))"
    by (metis of_int_le_iff of_int_numeral of_int_power)
  then have "2 ^ 52 * ?g \<le> real_of_int (round_half_even (x / ?g)) * ?g"
    using g by (intro mult_right_mono) auto
  moreover have "2 ^ 52 * ?g = 2 powi (exponent x)"
    using pow2_split [of "exponent x"] by (simp only: mult.commute)
  ultimately show ?thesis unfolding round_to_grid_def by (simp only:)
qed

lemma round_to_grid_mono:
  assumes "0 \<le> x" and "x \<le> y"
  shows "round_to_grid x \<le> round_to_grid y"
proof -
  have le: "exponent x \<le> exponent y" using assms by (intro exponent_mono) simp
  show ?thesis
  proof (cases "exponent x = exponent y")
    case True
    let ?g = "(2::real) powi (exponent y - 52)"
    have g: "0 < ?g" by simp
    have "x / ?g \<le> y / ?g" using assms g by (simp add: divide_right_mono)
    then have "round_half_even (x / ?g) \<le> round_half_even (y / ?g)"
      by (rule round_half_even_mono)
    then have "real_of_int (round_half_even (x / ?g)) * ?g
                 \<le> real_of_int (round_half_even (y / ?g)) * ?g"
      using g by (simp add: mult_right_mono)
    with True show ?thesis by (simp add: round_to_grid_def)
  next
    case False
    with le have lt: "exponent x < exponent y" by simp
    with exponent_range [of y] have "exponent x < 1023" by simp
    then have "\<bar>x\<bar> < 2 powi (exponent x + 1)" by (rule exponent_upper)
    with assms(1) have "x \<le> 2 powi (exponent x + 1)" by simp
    with assms(1) have a: "round_to_grid x \<le> 2 powi (exponent x + 1)"
      by (rule round_to_grid_upper)
    have b: "(2::real) powi (exponent x + 1) \<le> 2 powi (exponent y)"
      using lt by (intro power_int_increasing) auto
    from lt exponent_range [of x] have "exponent y \<noteq> - 1022" by simp
    then have "2 powi (exponent y) \<le> \<bar>y\<bar>"
      using binade_lower [of "\<bar>y\<bar>" 2045] by (simp add: exponent_def)
    moreover have "0 \<le> y" using assms by simp
    ultimately have "2 powi (exponent y) \<le> y" by simp
    then have "2 powi (exponent y) \<le> round_to_grid y" by (rule round_to_grid_lower)
    with a b show ?thesis by linarith
  qed
qed

lemma abs_scale:
  assumes "0 < (g::real)"
  shows "\<bar>a - x / g\<bar> * g = \<bar>a * g - x\<bar>"
proof -
  have "(a - x / g) * g = a * g - x" using assms by (simp add: field_simps)
  then have "\<bar>a * g - x\<bar> = \<bar>(a - x / g) * g\<bar>" by simp
  also have "\<dots> = \<bar>a - x / g\<bar> * \<bar>g\<bar>" by (rule abs_mult)
  finally show ?thesis using assms by simp
qed

lemma round_to_grid_error:
  "\<bar>round_to_grid x - x\<bar> \<le> 2 powi (exponent x - 52) / 2"
proof -
  let ?g = "(2::real) powi (exponent x - 52)"
  have g: "0 < ?g" by simp
  have "\<bar>real_of_int (round_half_even (x / ?g)) - x / ?g\<bar> \<le> 1 / 2"
    by (rule round_half_even_error)
  then have "\<bar>real_of_int (round_half_even (x / ?g)) - x / ?g\<bar> * ?g \<le> 1 / 2 * ?g"
    using g by (intro mult_right_mono) auto
  moreover have "\<bar>real_of_int (round_half_even (x / ?g)) - x / ?g\<bar> * ?g
                   = \<bar>real_of_int (round_half_even (x / ?g)) * ?g - x\<bar>"
    using g by (rule abs_scale)
  ultimately show ?thesis by (simp add: round_to_grid_def)
qed


lemma round_to_grid_int:
  assumes "\<bar>n\<bar> < 2 ^ 53"
  shows "round_to_grid (of_int n) = of_int n"
proof (cases "n = 0")
  case True
  then show ?thesis by (simp add: round_to_grid_def)
next
  case False
  let ?k = "exponent (real_of_int n)"
  let ?g = "(2::real) powi (?k - 52)"
  have "?k \<le> 52"
  proof (rule ccontr)
    assume "\<not> ?k \<le> 52"
    then have k: "53 \<le> ?k" by simp
    then have "?k \<noteq> - 1022" by simp
    then have "2 powi ?k \<le> \<bar>real_of_int n\<bar>"
      using binade_lower [of "\<bar>real_of_int n\<bar>" 2045] by (simp add: exponent_def)
    moreover have "(2::real) powi 53 \<le> 2 powi ?k"
      using k by (intro power_int_increasing) auto
    ultimately have "(2::real) ^ 53 \<le> \<bar>real_of_int n\<bar>" by simp
    then have "(2::real) ^ 53 \<le> real_of_int \<bar>n\<bar>" by simp
    then have "(2::int) ^ 53 \<le> \<bar>n\<bar>"
      by (metis of_int_le_iff of_int_numeral of_int_power)
    with assms show False by simp
  qed
  then have nn: "0 \<le> 52 - ?k" by simp
  have inv: "1 / ?g = 2 powi (52 - ?k)"
  proof -
    have "(2::real) powi (52 - ?k) = 2 powi (- (?k - 52))"
      by (rule arg_cong [where f = "\<lambda>i. 2 powi i"]) simp
    also have "\<dots> = 1 / 2 powi (?k - 52)" by (rule power_int_minus_divide)
    finally show ?thesis by (rule sym)
  qed
  have "real_of_int n / ?g = real_of_int n * (1 / ?g)" by simp
  also have "\<dots> = real_of_int n * 2 powi (52 - ?k)" by (simp only: inv)
  also have "\<dots> = real_of_int n * 2 ^ nat (52 - ?k)"
    using nn by (simp add: power_int_nonneg_exp)
  also have "\<dots> = real_of_int (n * 2 ^ nat (52 - ?k))" by simp
  finally have q: "real_of_int n / ?g = real_of_int (n * 2 ^ nat (52 - ?k))" .
  have "round_to_grid (real_of_int n)
          = real_of_int (round_half_even (real_of_int (n * 2 ^ nat (52 - ?k)))) * ?g"
    by (simp only: round_to_grid_def q)
  also have "\<dots> = real_of_int (n * 2 ^ nat (52 - ?k)) * ?g"
    by (simp only: round_half_even_of_int)
  also have "\<dots> = real_of_int n / ?g * ?g" by (simp only: q)
  also have "\<dots> = real_of_int n" by simp
  finally show ?thesis .
qed

lemma round_double_int:
  assumes "\<bar>n\<bar> < 2 ^ 53"
  shows "round_double (of_int n) = Finite (of_int n)"
proof -
  have "\<bar>real_of_int n\<bar> < 2 ^ 53"
    using assms by (metis of_int_abs of_int_less_iff of_int_numeral of_int_power)
  moreover have "(2::real) ^ 53 \<le> 2 ^ 1024" by (rule power_increasing) auto
  ultimately have "\<bar>real_of_int n\<bar> < 2 ^ 1024" by linarith
  then show ?thesis
    by (simp only: round_double_def round_to_grid_int [OF assms] Let_def) (simp add: abs_less_iff not_le)
qed

lemma round_double_finite:
  assumes "0 \<le> x" and "x < 2 ^ 1023"
  shows "round_double x = Finite (round_to_grid x)"
proof -
  have k: "exponent x \<le> 1022"
  proof (rule ccontr)
    assume "\<not> exponent x \<le> 1022"
    then have k: "1023 \<le> exponent x" by simp
    then have "exponent x \<noteq> - 1022" by simp
    then have "2 powi (exponent x) \<le> \<bar>x\<bar>"
      using binade_lower [of "\<bar>x\<bar>" 2045] by (simp add: exponent_def)
    moreover have "(2::real) powi 1023 \<le> 2 powi (exponent x)"
      using k by (intro power_int_increasing) auto
    ultimately have "(2::real) ^ 1023 \<le> \<bar>x\<bar>" by simp
    with assms show False by simp
  qed
  then have "exponent x < 1023" by simp
  then have "\<bar>x\<bar> < 2 powi (exponent x + 1)" by (rule exponent_upper)
  with assms(1) have "x \<le> 2 powi (exponent x + 1)" by simp
  with assms(1) have "round_to_grid x \<le> 2 powi (exponent x + 1)" by (rule round_to_grid_upper)
  also have "(2::real) powi (exponent x + 1) \<le> 2 powi 1023"
    using k by (intro power_int_increasing) auto
  also have "(2::real) powi 1023 = 2 ^ 1023" by (rule power_int_numeral)
  also have "(2::real) ^ 1023 < 2 ^ 1024" by (rule power_strict_increasing) auto
  finally have up: "round_to_grid x < 2 ^ 1024" .
  have "round_to_grid 0 \<le> round_to_grid x" using assms(1) by (intro round_to_grid_mono) auto
  moreover have "round_to_grid 0 = 0" by (simp add: round_to_grid_def)
  ultimately have lo: "0 \<le> round_to_grid x" by simp
  have "(0::real) < 2 ^ 1024" by simp
  with lo have "\<not> round_to_grid x \<le> - (2 ^ 1024)" by linarith
  with up show ?thesis by (simp only: round_double_def Let_def not_le [symmetric] if_False)
qed

lemma round_to_grid_relative:
  assumes "2 powi (- 1022) \<le> x"
  shows "\<bar>round_to_grid x - x\<bar> \<le> x / 2 ^ 53"
proof -
  have pos: "0 < x" using assms zero_less_power_int [of "2::real" "- 1022"] by linarith
  then have "2 powi (exponent x) \<le> \<bar>x\<bar>" using assms by (intro exponent_lower) simp
  with pos have lo: "2 powi (exponent x) \<le> x" by simp
  have "\<bar>round_to_grid x - x\<bar> \<le> 2 powi (exponent x - 52) / 2" by (rule round_to_grid_error)
  also have "(2::real) powi (exponent x - 52) / 2 = 2 powi (exponent x) / 2 ^ 53"
  proof -
    have A: "(2::real) powi (exponent x + 1) = 2 powi (exponent x) * 2"
      by (rule power_int_add_1) simp
    have B: "(2::real) powi (exponent x - 52) * 2 ^ 53 = 2 powi (exponent x) * 2"
      using pow2_split53 [of "exponent x"] A by (simp only:)
    then show ?thesis by (simp add: field_simps)
  qed
  also have "\<dots> \<le> x / 2 ^ 53" using lo by (simp add: divide_right_mono)
  finally show ?thesis .
qed

lemma round_double_Finite: "round_double x = Finite r \<Longrightarrow> r = round_to_grid x"
  by (simp add: round_double_def Let_def split: if_splits)

lemma int_truediv_Inr: "int_truediv a b = Inr r \<Longrightarrow> r = round_to_grid (real_of_int a / real_of_int b)"
  by (auto simp: int_truediv_def dest: round_double_Finite split: if_splits py_float.splits)

lemma int_truediv_Inl: "int_truediv a b = Inl e \<Longrightarrow> b \<noteq> 0 \<Longrightarrow> e = OverflowError"
  by (auto simp: int_truediv_def split: if_splits py_float.splits)

text \<open>The quotients that the tests meet.\<close>

lemma exponent_307: "exponent (1536 / 5) = 8"
  by (rule exponent_eqI) simp_all

lemma round_double_307: "round_double (1536 / 5) = Finite (5404319552844595 / 17592186044416)"
  unfolding round_double_def round_to_grid_def exponent_307 by (simp add: round_half_even_def)

lemma exponent_614: "exponent (3072 / 5) = 9"
  by (rule exponent_eqI) simp_all

lemma round_double_614: "round_double (3072 / 5) = Finite (5404319552844595 / 8796093022208)"
  unfolding round_double_def round_to_grid_def exponent_614 by (simp add: round_half_even_def)

lemma exponent_460: "exponent (2304 / 5) = 8"
  by (rule exponent_eqI) simp_all

lemma round_double_460: "round_double (2304 / 5) = Finite (8106479329266893 / 17592186044416)"
  unfolding round_double_def round_to_grid_def exponent_460 by (simp add: round_half_even_def)

lemma exponent_319: "exponent (3199 / 10) = 8"
  by (rule exponent_eqI) simp_all

lemma round_double_319: "round_double (3199 / 10) = Finite (2813870157804339 / 8796093022208)"
  unfolding round_double_def round_to_grid_def exponent_319 by (simp add: round_half_even_def)

lemma exponent_240: "exponent (2407 / 10) = 7"
  by (rule exponent_eqI) simp_all

lemma round_double_240: "round_double (2407 / 10) = Finite (4234439180890931 / 17592186044416)"
  unfolding round_double_def round_to_grid_def exponent_240 by (simp add: round_half_even_def)

lemma round_double_320: "round_double 320 = Finite 320"
  using round_double_int [of 320] by simp

lemma round_double_240_exact: "round_double 240 = Finite 240"
  using round_double_int [of 240] by simp

lemma get_min_contour_area_640_480: "get_min_contour_area 640 480 = Inr frame_min_area"
  by (simp add: get_min_contour_area_def int_truediv_def round_double_307 frame_min_area_def)

lemma get_min_contour_area_1280_480:
  "get_min_contour_area 1280 480 = Inr (5404319552844595 / 8796093022208)"
  by (simp add: get_min_contour_area_def int_truediv_def round_double_614)

lemma get_min_contour_area_640_720:
  "get_min_contour_area 640 720 = Inr (8106479329266893 / 17592186044416)"
  by (simp add: get_min_contour_area_def int_truediv_def round_double_460)

subsection \<open>get_min_contour_area\<close>

text \<open>
  C2, as the code has it. For frame widths \<open>w\<close> and heights \<open>h\<close> (which are not
  negative), \<open>get_min_contour_area w h\<close> is the quotient of \<open>w * h\<close> by 1000 rounded to
  the nearest double: it is not truncated to an integer, and it differs from the exact
  quotient by at most the fraction \<open>2 ^ -53\<close> of it. It returns that double for every
  quotient below \<open>2 ^ 1023\<close>, and when it does not return it raises OverflowError. It does
  not decrease when the width or the height grows. Being a function of its two arguments
  alone, it is deterministic and pure.
\<close>

theorem get_min_contour_area_rounded_mono:
  assumes "0 \<le> w" and "0 \<le> h"
  shows "(real_of_int (w * h) / 1000 < 2 ^ 1023 \<longrightarrow>
            get_min_contour_area w h = Inr (round_to_grid (real_of_int (w * h) / 1000))
            \<and> \<bar>round_to_grid (real_of_int (w * h) / 1000) - real_of_int (w * h) / 1000\<bar>
                \<le> real_of_int (w * h) / 1000 / 2 ^ 53)
         \<and> (\<forall>r r'. w \<le> w' \<and> get_min_contour_area w h = Inr r
                \<and> get_min_contour_area w' h = Inr r' \<longrightarrow> r \<le> r')
         \<and> (\<forall>r r'. h \<le> h' \<and> get_min_contour_area w h = Inr r
                \<and> get_min_contour_area w h' = Inr r' \<longrightarrow> r \<le> r')
         \<and> (\<forall>e. get_min_contour_area w h = Inl e \<longrightarrow> e = OverflowError)"
proof (intro conjI impI allI)
  let ?x = "real_of_int (w * h) / 1000"
  have nn: "0 \<le> w * h" using assms by simp
  then have "0 \<le> real_of_int (w * h)" by (simp only: of_int_0_le_iff)
  then have x0: "0 \<le> ?x" by (rule divide_nonneg_nonneg) simp
  {
    assume lt: "?x < 2 ^ 1023"
    with x0 have "round_double ?x = Finite (round_to_grid ?x)" by (rule round_double_finite)
    then show "get_min_contour_area w h = Inr (round_to_grid ?x)"
      by (simp add: get_min_contour_area_def int_truediv_def)
    show "\<bar>round_to_grid ?x - ?x\<bar> \<le> ?x / 2 ^ 53"
    proof (cases "w * h = 0")
      case True
      have z: "real_of_int (w * h) / 1000 = 0" unfolding True by simp
      show ?thesis unfolding z by (simp add: round_to_grid_def)
    next
      case False
      with nn have "1 \<le> w * h" by linarith
      then have "1 \<le> real_of_int (w * h)" by (metis of_int_1_le_iff)
      then have "1 / 1000 \<le> ?x" by (simp add: divide_right_mono)
      moreover have "(2::real) powi (- 1022) \<le> 2 powi (- 10)"
        by (intro power_int_increasing) auto
      moreover have "(2::real) powi (- 10) \<le> 1 / 1000" by simp
      ultimately have "2 powi (- 1022) \<le> ?x" by linarith
      then show ?thesis by (rule round_to_grid_relative)
    qed
  }
  {
    fix r r'
    assume h: "w \<le> w' \<and> get_min_contour_area w h = Inr r \<and> get_min_contour_area w' h = Inr r'"
    then have r: "r = round_to_grid ?x"
      and r': "r' = round_to_grid (real_of_int (w' * h) / 1000)"
      by (auto simp: get_min_contour_area_def dest: int_truediv_Inr)
    from h assms have "w * h \<le> w' * h" by (simp add: mult_right_mono)
    then have "real_of_int (w * h) \<le> real_of_int (w' * h)" by (simp only: of_int_le_iff)
    then have "?x \<le> real_of_int (w' * h) / 1000" by (simp add: divide_right_mono)
    with x0 show "r \<le> r'" unfolding r r' by (rule round_to_grid_mono)
  }
  {
    fix r r'
    assume h: "h \<le> h' \<and> get_min_contour_area w h = Inr r \<and> get_min_contour_area w h' = Inr r'"
    then have r: "r = round_to_grid ?x"
      and r': "r' = round_to_grid (real_of_int (w * h') / 1000)"
      by (auto simp: get_min_contour_area_def dest: int_truediv_Inr)
    from h assms have "w * h \<le> w * h'" by (simp add: mult_left_mono)
    then have "real_of_int (w * h) \<le> real_of_int (w * h')" by (simp only: of_int_le_iff)
    then have "?x \<le> real_of_int (w * h') / 1000" by (simp add: divide_right_mono)
    with x0 show "r \<le> r'" unfolding r r' by (rule round_to_grid_mono)
  }
  {
    fix e
    assume "get_min_contour_area w h = Inl e"
    then show "e = OverflowError"
      by (simp add: get_min_contour_area_def int_truediv_Inl)
  }
qed

theorem get_min_contour_area_rounded_mono_witness:
  "get_min_contour_area 640 480 = Inr frame_min_area
   \<and> \<bar>frame_min_area - 3072 / 10\<bar> \<le> 3072 / 10 / 2 ^ 53
   \<and> frame_min_area \<noteq> real_of_int ((640 * 480) div 1000)
   \<and> get_min_contour_area 1280 480 = Inr (5404319552844595 / 8796093022208)
   \<and> frame_min_area \<le> 5404319552844595 / 8796093022208
   \<and> get_min_contour_area 640 720 = Inr (8106479329266893 / 17592186044416)
   \<and> frame_min_area \<le> 8106479329266893 / 17592186044416"
proof -
  have a1: "(0::int) \<le> 640" and a2: "(0::int) \<le> 480" by simp_all
  note T = get_min_contour_area_rounded_mono [of 640 480 1280 720, OF a1 a2]
  have q: "real_of_int (640 * 480) / 1000 = 1536 / 5" by simp
  have "(1536 / 5 :: real) < 2 ^ 9" by simp
  also have "(2::real) ^ 9 \<le> 2 ^ 1023" by (rule power_increasing) auto
  finally have b: "real_of_int (640 * 480) / 1000 < 2 ^ 1023" by (simp only: q)
  have g: "round_to_grid (1536 / 5) = frame_min_area"
    using round_double_Finite [OF round_double_307] by (simp add: frame_min_area_def)
  have "\<bar>round_to_grid (real_of_int (640 * 480) / 1000) - real_of_int (640 * 480) / 1000\<bar>
          \<le> real_of_int (640 * 480) / 1000 / 2 ^ 53"
    by (rule T [THEN conjunct1, THEN mp, OF b, THEN conjunct2])
  then have "\<bar>frame_min_area - 1536 / 5\<bar> \<le> 1536 / 5 / 2 ^ 53" by (simp only: q g)
  then have e: "\<bar>frame_min_area - 3072 / 10\<bar> \<le> 3072 / 10 / 2 ^ 53" by simp
  have le1: "(640::int) \<le> 1280" and le2: "(480::int) \<le> 720" by simp_all
  note g640 = get_min_contour_area_640_480
  note g1280 = get_min_contour_area_1280_480
  note g720 = get_min_contour_area_640_720
  have m1: "frame_min_area \<le> 5404319552844595 / 8796093022208"
    by (rule T [THEN conjunct2, THEN conjunct1, rule_format,
                OF conjI [OF le1 conjI [OF g640 g1280]]])
  have m2: "frame_min_area \<le> 8106479329266893 / 17592186044416"
    by (rule T [THEN conjunct2, THEN conjunct2, THEN conjunct1, rule_format,
                OF conjI [OF le2 conjI [OF g640 g720]]])
  have n: "frame_min_area \<noteq> real_of_int ((640 * 480) div 1000)"
    by (simp add: frame_min_area_def)
  show ?thesis by (intro conjI g640 e n g1280 m1 g720 m2)
qed

text \<open>
  C2 as stated fails: for a frame of 640 by 480 the result is a double that is close to
  307.2 and is not 307.2, and a thousand times it is not 640 times 480.
\<close>

theorem get_min_contour_area_inexact_counterexample:
  "get_min_contour_area 640 480 = Inr (5404319552844595 / 17592186044416)
   \<and> (5404319552844595 / 17592186044416 :: real) \<noteq> real_of_int (640 * 480) / 1000
   \<and> (5404319552844595 / 17592186044416 :: real) * 1000 \<noteq> real_of_int (640 * 480)"
  using get_min_contour_area_640_480 by (simp add: frame_min_area_def)

subsection \<open>draw_contours on an empty list\<close>

text \<open>
  C7. Called with an empty contour list, \<open>draw_contours\<close> returns the frame it was given,
  unchanged, and logs nothing.
\<close>

theorem draw_contours_empty:
  "draw_contours cv w [] min_contour_area = (Inr (frame_buffer w), w)
   \<and> frame_buffer (snd (draw_contours cv w [] min_contour_area)) = frame_buffer w
   \<and> logged (snd (draw_contours cv w [] min_contour_area)) = logged w
   \<and> console (snd (draw_contours cv w [] min_contour_area)) = console w
   \<and> app_log (snd (draw_contours cv w [] min_contour_area)) = app_log w"
  by simp

subsection \<open>process_frame\<close>

lemma dom_color_bounds:
  "dom color_bounds =
     {''blue'', ''red'', ''green'', ''yellow'', ''orange'', ''black'', ''white''}"
  by (auto simp: color_bounds_def split: if_splits)

lemma color_bounds_entry:
  "color_bounds k = Some e \<Longrightarrow> \<exists>lo up. e = bounds lo up"
  by (simp add: color_bounds_def split: if_splits; blast)

lemma process_frame_present:
  assumes "cb k = Some e" and "e ''lower'' = Some lo" and "e ''upper'' = Some up"
  shows "process_frame cv frame cb k a =
           Inr (frame, external_contours cv (mask_builder cv frame lo up))"
  using assms by (simp add: process_frame_def dict_get_def mask_builder_def external_contours_def)

lemma process_frame_absent:
  "cb k = None \<Longrightarrow> process_frame cv frame cb k a = Inl (KeyError k)"
  by (simp add: process_frame_def dict_get_def)

text \<open>
  C5. A colour key that is not in the table given to \<open>process_frame\<close> makes it fail
  with KeyError for that key, whatever the table, the frame and the library do: no bounds
  are made up. For each of the seven keys of the program's table (blue, red, green,
  yellow, orange, black, white) it returns the frame together with a contour list.
\<close>

theorem process_frame_lookup:
  "(chosen_color \<notin> dom cb \<longrightarrow>
      process_frame cv frame cb chosen_color a = Inl (KeyError chosen_color))
   \<and> (chosen_color \<in> dom color_bounds \<longrightarrow>
      (\<exists>cnts. process_frame cv frame color_bounds chosen_color a = Inr (frame, cnts)))
   \<and> dom color_bounds =
       {''blue'', ''red'', ''green'', ''yellow'', ''orange'', ''black'', ''white''}"
proof (intro conjI impI)
  assume "chosen_color \<notin> dom cb"
  then show "process_frame cv frame cb chosen_color a = Inl (KeyError chosen_color)"
    by (simp add: process_frame_absent domIff)
next
  assume "chosen_color \<in> dom color_bounds"
  then obtain e where e: "color_bounds chosen_color = Some e" by auto
  then obtain lo up where "e = bounds lo up" using color_bounds_entry by blast
  then have "e ''lower'' = Some lo" "e ''upper'' = Some up" by (simp_all add: bounds_def)
  with e show "\<exists>cnts. process_frame cv frame color_bounds chosen_color a = Inr (frame, cnts)"
    using process_frame_present [of color_bounds chosen_color e lo up cv frame a] by simp
next
  show "dom color_bounds =
       {''blue'', ''red'', ''green'', ''yellow'', ''orange'', ''black'', ''white''}"
    by (rule dom_color_bounds)
qed

theorem process_frame_lookup_witness:
  "process_frame (test_cv2 [disk_contour] []) [] color_bounds ''purple'' (3072 / 10)
     = Inl (KeyError ''purple'')
   \<and> (\<exists>cnts. process_frame (test_cv2 [disk_contour] []) [] color_bounds ''blue'' (3072 / 10)
          = Inr ([], cnts))"
  using process_frame_lookup [of "''purple''" color_bounds "test_cv2 [disk_contour] []" "[]" "3072 / 10"]
    process_frame_lookup [of "''blue''" color_bounds "test_cv2 [disk_contour] []" "[]" "3072 / 10"]
  by (simp add: dom_color_bounds)

text \<open>
  C6. For a colour whose entry has both bounds, \<open>process_frame\<close> returns the frame
  with the contours that \<open>findContours\<close> reports in mode \<open>RETR_EXTERNAL\<close> on the
  mask built by the stages of the specification in their order: Gaussian blur with an 11 by
  11 kernel, conversion from BGR to HSV, range threshold against the two bounds, erosion
  with 2 iterations, dilation with 2 iterations. That \<open>RETR_EXTERNAL\<close> reports the
  outermost contours only is the contract of the library for that mode.
\<close>

theorem process_frame_pipeline:
  assumes "cb chosen_color = Some entry"
    and "entry ''lower'' = Some lo" and "entry ''upper'' = Some up"
  shows "process_frame cv frame cb chosen_color a =
           Inr (frame, external_contours cv (mask_builder cv frame lo up))
         \<and> mask_builder cv frame lo up =
             dilate cv (erode cv (inRange cv
               (cvtColor cv (GaussianBlur cv frame (11, 11) 0) COLOR_BGR2HSV) lo up) None 2) None 2
         \<and> external_contours cv (mask_builder cv frame lo up) =
             grab_contours cv (findContours cv (mask_builder cv frame lo up)
               RETR_EXTERNAL CHAIN_APPROX_SIMPLE)"
  using process_frame_present [of cb chosen_color entry lo up cv frame a] assms
  by (simp add: mask_builder_def external_contours_def)

theorem process_frame_pipeline_witness:
  "process_frame (test_cv2 [disk_contour] [speck_contour]) [] color_bounds ''blue'' (3072 / 10)
     = Inr ([], [disk_contour])
   \<and> mask_builder (test_cv2 [disk_contour] [speck_contour]) [] (100, 50, 50) (130, 255, 255)
     = [Blurred (11, 11) 0, Converted COLOR_BGR2HSV, Thresholded (100, 50, 50) (130, 255, 255),
        Eroded 2, Dilated 2]"
proof -
  have 1: "color_bounds ''blue'' = Some (bounds (100, 50, 50) (130, 255, 255))"
    by (simp add: color_bounds_def)
  have 2: "bounds (100, 50, 50) (130, 255, 255) ''lower'' = Some (100, 50, 50)"
    by (simp add: bounds_def)
  have 3: "bounds (100, 50, 50) (130, 255, 255) ''upper'' = Some (130, 255, 255)"
    by (simp add: bounds_def)
  show ?thesis
    using process_frame_pipeline [of color_bounds "''blue''" "bounds (100, 50, 50) (130, 255, 255)"
        "(100, 50, 50)" "(130, 255, 255)" "test_cv2 [disk_contour] [speck_contour]" "[]" "3072 / 10"]
      1 2 3
    by (simp add: test_cv2_def external_contours_def)
qed

text \<open>
  C9. The result of \<open>process_frame\<close> does not depend on \<open>min_contour_area\<close>: any two
  values of that argument give the same result, for every frame, table and key.
\<close>

theorem process_frame_ignores_min_contour_area:
  "process_frame cv frame cb chosen_color a = process_frame cv frame cb chosen_color b"
  by (simp add: process_frame_def)

subsection \<open>draw_contours\<close>

lemma draw_contour_rejected:
  "\<not> passes_filter cv a c \<Longrightarrow> draw_contour cv a c w = (Inr (), w)"
  by (auto simp: draw_contour_def passes_filter_def split: prod.splits)

lemma draw_contour_zero_moment:
  "passes_filter cv a c \<Longrightarrow> m00 (moments_of cv c) = 0 \<Longrightarrow>
     draw_contour cv a c w =
       (Inl ZeroDivisionError, w\<lparr>frame_buffer := outline_circle cv c (frame_buffer w)\<rparr>)"
  by (auto simp: draw_contour_def passes_filter_def py_truediv_def Let_def
      outline_circle_def split: prod.splits)

lemma draw_contour_annotated:
  assumes "passes_filter cv a c" and "minEnclosingCircle cv c = ((x, y), radius)"
    and "py_truediv (m10 (moments_of cv c)) (m00 (moments_of cv c)) = Inr (Finite qx)"
    and "py_truediv (m01 (moments_of cv c)) (m00 (moments_of cv c)) = Inr (Finite qy)"
  shows "draw_contour cv a c w =
           (Inr (),
            logger_info (''Center coordinates: '' @ str_pair (py_int qx, py_int qy))
              (w\<lparr>frame_buffer :=
                   circle cv
                     (circle cv (frame_buffer w) (py_int x, py_int y) (py_int radius)
                        (0, 255, 255) 5)
                     (py_int qx, py_int qy) 5 (0, 0, 255) (- 1)\<rparr>))"
  using assms by (simp add: draw_contour_def passes_filter_def int_of_float_def Let_def)

lemma py_int_truncates:
  "\<bar>real_of_int (py_int z)\<bar> \<le> \<bar>z\<bar> \<and> \<bar>z\<bar> < \<bar>real_of_int (py_int z)\<bar> + 1
     \<and> 0 \<le> real_of_int (py_int z) * z"
proof (cases "0 \<le> z")
  case True
  then have "0 \<le> \<lfloor>z\<rfloor>" by simp
  with True show ?thesis
    by (simp add: py_int_def)
next
  case False
  then have "\<lceil>z\<rceil> \<le> 0" by simp
  moreover have "z \<le> real_of_int \<lceil>z\<rceil>" "real_of_int \<lceil>z\<rceil> < z + 1" by linarith+
  ultimately show ?thesis using False
    by (simp add: py_int_def mult_nonpos_nonpos) 
qed

lemma str_pair_320_240: "str_pair (320, 240) = ''(320, 240)''" by code_simp
lemma str_pair_319_240: "str_pair (319, 240) = ''(319, 240)''" by code_simp

lemma logger_info_line:
  "logger_info msg w =
     w\<lparr>logged := logged w @ [(INFO, msg)],
       console := console w @ [''root - INFO - '' @ msg, ''root - INFO - '' @ msg],
       app_log := app_log w @ [''root - INFO - '' @ msg]\<rparr>"
  by (simp add: logger_info_def root_level_def root_handlers_def format_record_def)

text \<open>The disk, handled from the state of a fresh frame.\<close>

lemma draw_contour_disk:
  "a < 7850 \<Longrightarrow>
   draw_contour (test_cv2 outer nested) a disk_contour camera_world =
     (Inr (),
      \<lparr>frame_buffer =
         [Circled (320, 240) 50 (0, 255, 255) 5, Circled (320, 240) 5 (0, 0, 255) (- 1)],
       logged = [(INFO, ''Center coordinates: (320, 240)'')],
       console = [''root - INFO - Center coordinates: (320, 240)'',
                  ''root - INFO - Center coordinates: (320, 240)''],
       app_log = [''root - INFO - Center coordinates: (320, 240)'']\<rparr>)"
  by (simp add: draw_contour_def test_cv2_def disk_contour_def camera_world_def py_truediv_def
      round_double_320 round_double_240_exact int_of_float_def py_int_def str_pair_320_240
      logger_info_line)

text \<open>
  C1 at the input where the code departs from it. With a minimum area of \<open>-1\<close>, the
  contour on a segment has area \<open>0 > -1\<close> and radius \<open>15 > 10\<close>, so it passes both
  tests; its outline circle is drawn, and then the division by \<open>m00 = 0\<close> raises, before
  the dot is drawn and before anything is logged.
\<close>

theorem draw_contours_passing_contour_not_annotated:
  "contourArea (test_cv2 [] []) segment_contour > - 1
   \<and> snd (minEnclosingCircle (test_cv2 [] []) segment_contour) > 10
   \<and> draw_contours (test_cv2 [] []) camera_world [segment_contour] (- 1) =
       (Inl ZeroDivisionError,
        \<lparr>frame_buffer = [Circled (15, 0) 15 (0, 255, 255) 5], logged = [],
         console = [], app_log = []\<rparr>)"
  by (simp add: draw_contour_def test_cv2_def camera_world_def segment_contour_def
      py_truediv_def py_int_def)

text \<open>
  C3. The division by \<open>m00\<close> has no guard: every contour that passes the area test and
  the radius test and whose \<open>m00\<close> is zero makes the loop body raise ZeroDivisionError,
  after the outline circle has been drawn, and with it the whole call of
  \<open>draw_contours\<close>. Such an input exists.
\<close>

theorem draw_contours_zero_division:
  "(contourArea cv c > a \<and> snd (minEnclosingCircle cv c) > 10 \<and> m00 (moments_of cv c) = 0 \<longrightarrow>
      draw_contour cv a c w =
        (Inl ZeroDivisionError, w\<lparr>frame_buffer := outline_circle cv c (frame_buffer w)\<rparr>)
      \<and> fst (draw_contours cv w (c # rest) a) = Inl ZeroDivisionError)
   \<and> (\<exists>c' a'. contourArea (test_cv2 [] []) c' > a'
         \<and> snd (minEnclosingCircle (test_cv2 [] []) c') > 10
         \<and> m00 (moments_of (test_cv2 [] []) c') = 0
         \<and> fst (draw_contours (test_cv2 [] []) camera_world [c'] a') = Inl ZeroDivisionError)"
proof (intro conjI impI)
  assume h: "contourArea cv c > a \<and> snd (minEnclosingCircle cv c) > 10
               \<and> m00 (moments_of cv c) = 0"
  then have p: "passes_filter cv a c" by (simp add: passes_filter_def)
  from h have z: "m00 (moments_of cv c) = 0" by simp
  show "draw_contour cv a c w =
        (Inl ZeroDivisionError, w\<lparr>frame_buffer := outline_circle cv c (frame_buffer w)\<rparr>)"
    using p z by (rule draw_contour_zero_moment)
  then show "fst (draw_contours cv w (c # rest) a) = Inl ZeroDivisionError" by simp
next
  have p: "passes_filter (test_cv2 [] []) (- 1) segment_contour"
    by (simp add: passes_filter_def test_cv2_def segment_contour_def)
  have z: "m00 (moments_of (test_cv2 [] []) segment_contour) = 0"
    by (simp add: test_cv2_def segment_contour_def)
  have "fst (draw_contours (test_cv2 [] []) camera_world [segment_contour] (- 1))
          = Inl ZeroDivisionError"
    using draw_contour_zero_moment [OF p z, of camera_world] by simp
  with p z show "\<exists>c' a'. contourArea (test_cv2 [] []) c' > a'
         \<and> snd (minEnclosingCircle (test_cv2 [] []) c') > 10
         \<and> m00 (moments_of (test_cv2 [] []) c') = 0
         \<and> fst (draw_contours (test_cv2 [] []) camera_world [c'] a') = Inl ZeroDivisionError"
    unfolding passes_filter_def by blast
qed

theorem draw_contours_zero_division_witness:
  "contourArea (test_cv2 [] []) segment_contour > - 1
   \<and> snd (minEnclosingCircle (test_cv2 [] []) segment_contour) > 10
   \<and> m00 (moments_of (test_cv2 [] []) segment_contour) = 0
   \<and> draw_contour (test_cv2 [] []) (- 1) segment_contour camera_world =
       (Inl ZeroDivisionError, camera_world\<lparr>frame_buffer := [Circled (15, 0) 15 (0, 255, 255) 5]\<rparr>)
   \<and> fst (draw_contours (test_cv2 [] []) camera_world [segment_contour, disk_contour] (- 1))
       = Inl ZeroDivisionError"
proof -
  have h: "contourArea (test_cv2 [] []) segment_contour > - 1
   \<and> snd (minEnclosingCircle (test_cv2 [] []) segment_contour) > 10
   \<and> m00 (moments_of (test_cv2 [] []) segment_contour) = 0"
    by (simp add: test_cv2_def segment_contour_def)
  have o: "outline_circle (test_cv2 [] []) segment_contour (frame_buffer camera_world)
             = [Circled (15, 0) 15 (0, 255, 255) 5]"
    by (simp add: outline_circle_def test_cv2_def segment_contour_def camera_world_def py_int_def)
  show ?thesis
    using draw_contours_zero_division
      [where cv = "test_cv2 [] []" and c = segment_contour and a = "- 1" and w = camera_world
         and rest = "[disk_contour]"] h o
    by simp
qed


text \<open>
  C8 at the inputs where the code departs from it. When a contour that passes both tests
  has \<open>m00 = 0\<close> the call raises there, so neither that contour nor an accepted contour
  after it, whose centroid is well defined, gets a log line. And for a contour that is
  logged, the one call of \<open>logger.info\<close> is written by the three handlers of the root
  logger: one line in the file, and two on the console.
\<close>

theorem draw_contours_log_lines_missing_or_doubled:
  "contourArea (test_cv2 [] []) segment_contour > - 1
   \<and> snd (minEnclosingCircle (test_cv2 [] []) segment_contour) > 10
   \<and> contourArea (test_cv2 [] []) disk_contour > - 1
   \<and> snd (minEnclosingCircle (test_cv2 [] []) disk_contour) > 10
   \<and> m00 (moments_of (test_cv2 [] []) disk_contour) \<noteq> 0
   \<and> console (snd (draw_contours (test_cv2 [] []) camera_world
        [segment_contour, disk_contour] (- 1))) = []
   \<and> app_log (snd (draw_contours (test_cv2 [] []) camera_world
        [segment_contour, disk_contour] (- 1))) = []
   \<and> draw_contours (test_cv2 [] []) camera_world [disk_contour] frame_min_area =
       (Inr [Circled (320, 240) 50 (0, 255, 255) 5, Circled (320, 240) 5 (0, 0, 255) (- 1)],
        \<lparr>frame_buffer =
           [Circled (320, 240) 50 (0, 255, 255) 5, Circled (320, 240) 5 (0, 0, 255) (- 1)],
         logged = [(INFO, ''Center coordinates: (320, 240)'')],
         console = [''root - INFO - Center coordinates: (320, 240)'',
                    ''root - INFO - Center coordinates: (320, 240)''],
         app_log = [''root - INFO - Center coordinates: (320, 240)'']\<rparr>)"
proof -
  have z: "draw_contour (test_cv2 [] []) (- 1) segment_contour camera_world =
             (Inl ZeroDivisionError,
              camera_world\<lparr>frame_buffer := [Circled (15, 0) 15 (0, 255, 255) 5]\<rparr>)"
    by (simp add: draw_contour_def test_cv2_def segment_contour_def py_truediv_def py_int_def
        camera_world_def)
  have a: "frame_min_area < 7850" by (simp add: frame_min_area_def)
  have m: "contourArea (test_cv2 [] []) segment_contour > - 1
   \<and> snd (minEnclosingCircle (test_cv2 [] []) segment_contour) > 10
   \<and> contourArea (test_cv2 [] []) disk_contour > - 1
   \<and> snd (minEnclosingCircle (test_cv2 [] []) disk_contour) > 10
   \<and> m00 (moments_of (test_cv2 [] []) disk_contour) \<noteq> 0"
    by (simp add: test_cv2_def segment_contour_def disk_contour_def)
  have s1: "draw_contours (test_cv2 [] []) camera_world [segment_contour, disk_contour] (- 1) =
             (Inl ZeroDivisionError,
              camera_world\<lparr>frame_buffer := [Circled (15, 0) 15 (0, 255, 255) 5]\<rparr>)"
    by (simp add: z)
  have s2: "draw_contours (test_cv2 [] []) camera_world [disk_contour] frame_min_area =
       (Inr [Circled (320, 240) 50 (0, 255, 255) 5, Circled (320, 240) 5 (0, 0, 255) (- 1)],
        \<lparr>frame_buffer =
           [Circled (320, 240) 50 (0, 255, 255) 5, Circled (320, 240) 5 (0, 0, 255) (- 1)],
         logged = [(INFO, ''Center coordinates: (320, 240)'')],
         console = [''root - INFO - Center coordinates: (320, 240)'',
                    ''root - INFO - Center coordinates: (320, 240)''],
         app_log = [''root - INFO - Center coordinates: (320, 240)'']\<rparr>)"
    by (simp add: draw_contour_disk [OF a])
  show ?thesis
    using m unfolding s1 s2 by (simp add: camera_world_def)
qed

text \<open>
  C10. For a contour that is annotated, the outline circle is drawn at \<open>(int(x), int(y))\<close>
  with radius \<open>int(radius)\<close> of the enclosing circle, and the dot is drawn and the centre
  logged at \<open>(int(qx), int(qy))\<close>, where \<open>qx\<close> and \<open>qy\<close> are the float quotients
  \<open>m10 / m00\<close> and \<open>m01 / m00\<close>, and where \<open>int\<close> truncates toward zero: its result is
  no farther from zero than its argument, less than one away from it, and of the same sign.
  It does not round to nearest: a centroid of (319.9, 240.7) is reported as (319, 240).
\<close>

theorem draw_contour_truncates:
  assumes "contourArea cv c > a" and "minEnclosingCircle cv c = ((x, y), radius)"
    and "radius > 10" and "moments_of cv c = M"
    and "py_truediv (m10 M) (m00 M) = Inr (Finite qx)"
    and "py_truediv (m01 M) (m00 M) = Inr (Finite qy)"
  shows "draw_contour cv a c w =
           (Inr (),
            logger_info (''Center coordinates: '' @ str_pair (py_int qx, py_int qy))
              (w\<lparr>frame_buffer :=
                   circle cv
                     (circle cv (frame_buffer w) (py_int x, py_int y) (py_int radius)
                        (0, 255, 255) 5)
                     (py_int qx, py_int qy) 5 (0, 0, 255) (- 1)\<rparr>))
         \<and> qx = round_to_grid (m10 M / m00 M) \<and> qy = round_to_grid (m01 M / m00 M)
         \<and> (\<forall>z. \<bar>real_of_int (py_int z)\<bar> \<le> \<bar>z\<bar> \<and> \<bar>z\<bar> < \<bar>real_of_int (py_int z)\<bar> + 1
                \<and> 0 \<le> real_of_int (py_int z) * z)"
proof (intro conjI allI)
  have p: "passes_filter cv a c" using assms by (simp add: passes_filter_def)
  show "draw_contour cv a c w =
           (Inr (),
            logger_info (''Center coordinates: '' @ str_pair (py_int qx, py_int qy))
              (w\<lparr>frame_buffer :=
                   circle cv
                     (circle cv (frame_buffer w) (py_int x, py_int y) (py_int radius)
                        (0, 255, 255) 5)
                     (py_int qx, py_int qy) 5 (0, 0, 255) (- 1)\<rparr>))"
    using p assms(2) assms(5,6) [folded assms(4)] by (rule draw_contour_annotated)
  show "qx = round_to_grid (m10 M / m00 M)"
    using assms(5) by (auto simp: py_truediv_def dest: round_double_Finite split: if_splits)
  show "qy = round_to_grid (m01 M / m00 M)"
    using assms(6) by (auto simp: py_truediv_def dest: round_double_Finite split: if_splits)
next
  fix z
  show "\<bar>real_of_int (py_int z)\<bar> \<le> \<bar>z\<bar>" using py_int_truncates [of z] by simp
  show "\<bar>z\<bar> < \<bar>real_of_int (py_int z)\<bar> + 1" using py_int_truncates [of z] by simp
  show "0 \<le> real_of_int (py_int z) * z" using py_int_truncates [of z] by simp
qed

theorem draw_contour_truncates_witness:
  "contourArea (test_cv2 [] []) offcentre_contour > frame_min_area
   \<and> minEnclosingCircle (test_cv2 [] []) offcentre_contour = ((2559 / 8, 963 / 4), 51 / 2)
   \<and> py_truediv 319900 1000 = Inr (Finite (2813870157804339 / 8796093022208))
   \<and> py_truediv 240700 1000 = Inr (Finite (4234439180890931 / 17592186044416))
   \<and> draw_contour (test_cv2 [] []) frame_min_area offcentre_contour camera_world =
       (Inr (),
        \<lparr>frame_buffer = [Circled (319, 240) 25 (0, 255, 255) 5,
                         Circled (319, 240) 5 (0, 0, 255) (- 1)],
         logged = [(INFO, ''Center coordinates: (319, 240)'')],
         console = [''root - INFO - Center coordinates: (319, 240)'',
                    ''root - INFO - Center coordinates: (319, 240)''],
         app_log = [''root - INFO - Center coordinates: (319, 240)'']\<rparr>)"
proof -
  have 1: "contourArea (test_cv2 [] []) offcentre_contour > frame_min_area"
    by (simp add: test_cv2_def offcentre_contour_def frame_min_area_def)
  have 2: "minEnclosingCircle (test_cv2 [] []) offcentre_contour
             = ((2559 / 8, 963 / 4), 51 / 2)"
    by (simp add: test_cv2_def offcentre_contour_def)
  have 3: "(51 / 2 :: real) > 10" by simp
  have 4: "moments_of (test_cv2 [] []) offcentre_contour
             = \<lparr>m00 = 1000, m10 = 319900, m01 = 240700\<rparr>"
    by (simp add: test_cv2_def offcentre_contour_def)
  have 5: "py_truediv 319900 1000 = Inr (Finite (2813870157804339 / 8796093022208))"
    by (simp add: py_truediv_def round_double_319)
  have 6: "py_truediv 240700 1000 = Inr (Finite (4234439180890931 / 17592186044416))"
    by (simp add: py_truediv_def round_double_240)
  have q5: "py_truediv (m10 \<lparr>m00 = 1000, m10 = 319900, m01 = 240700\<rparr>)
              (m00 \<lparr>m00 = 1000, m10 = 319900, m01 = 240700\<rparr>)
            = Inr (Finite (2813870157804339 / 8796093022208))"
    using 5 by simp
  have q6: "py_truediv (m01 \<lparr>m00 = 1000, m10 = 319900, m01 = 240700\<rparr>)
              (m00 \<lparr>m00 = 1000, m10 = 319900, m01 = 240700\<rparr>)
            = Inr (Finite (4234439180890931 / 17592186044416))"
    using 6 by simp
  have "draw_contour (test_cv2 [] []) frame_min_area offcentre_contour camera_world =
       (Inr (),
        \<lparr>frame_buffer = [Circled (319, 240) 25 (0, 255, 255) 5,
                         Circled (319, 240) 5 (0, 0, 255) (- 1)],
         logged = [(INFO, ''Center coordinates: (319, 240)'')],
         console = [''root - INFO - Center coordinates: (319, 240)'',
                    ''root - INFO - Center coordinates: (319, 240)''],
         app_log = [''root - INFO - Center coordinates: (319, 240)'']\<rparr>)"
    using draw_contour_truncates [OF 1 2 3 4 q5 q6, of camera_world, THEN conjunct1]
    by (simp add: py_int_def test_cv2_def camera_world_def str_pair_319_240 logger_info_line)
  with 1 2 5 6 show ?thesis by (intro conjI)
qed


end
